theory Spec2Isabelle
  imports Main "HOL-Library.FSet" "HOL-Library.Finite_Map"
    "HOL-Library.Char_ord" "HOL-Library.List_Lexorder"
begin

section \<open>The NSW Rural Fire Service feed platform\<close>

text \<open>
  A shallow embedding of \<^verbatim>\<open>homeassistant/components/geo_location/nsw_rural_fire_service_feed.py\<close>:
  the feed manager (\<^verbatim>\<open>NswRuralFireServiceFeedManager\<close>) and the entity
  (\<^verbatim>\<open>NswRuralFireServiceLocationEvent\<close>).

  \<^item> External ids are strings; a Python \<^verbatim>\<open>set\<close> of them is a \<open>string fset\<close>, the
    dictionary \<^verbatim>\<open>feed_entries\<close> is a finite map.
  \<^item> A Python attribute value is \<open>'v option\<close>, with \<open>None\<close> for Python's \<^verbatim>\<open>None\<close>.
  \<^item> A raised exception is the left summand of the result.
  \<^item> \<^verbatim>\<open>dispatcher_send\<close> and \<^verbatim>\<open>add_entities\<close> act on the host platform. Each call is
    recorded in a trace, in program order, together with the manager's state at the
    moment of the call. Logging is not modelled.
  \<^item> The order in which Python iterates over a set is not determined by the program. Every
    loop over a set takes its order from a parameter \<open>it\<close>, which lists the elements of
    a set; the properties are proved for every \<open>it\<close> that lists each element once.
\<close>

subsection \<open>Data\<close>

datatype py_error = KeyError string | TypeError

text \<open>
  The three status values of \<^verbatim>\<open>geojson_client\<close>. The manager tests for the first two
  and takes every other value as a failure.
\<close>

datatype update_status = UPDATE_OK | UPDATE_OK_NO_DATA | UPDATE_ERROR

text \<open>A feed entry of \<^verbatim>\<open>geojson_client\<close>: the attributes the platform reads.\<close>

record 'v feed_entry =
  external_id :: string
  title :: "'v option"
  distance_to_home :: "'v option"
  coordinates :: "('v \<times> 'v) option"
  attribution :: "'v option"
  category :: "'v option"
  publication_date :: "'v option"
  location :: "'v option"
  council_area :: "'v option"
  status :: "'v option"
  type_attr :: "'v option"
  fire :: "'v option"
  size_attr :: "'v option"
  responsible_agency :: "'v option"

text \<open>
  The fields of \<^verbatim>\<open>NswRuralFireServiceLocationEvent\<close>. The source names them with a
  leading underscore; here the prefix is \<open>ev_\<close>. The field \<^verbatim>\<open>_feed_manager\<close> is a
  reference to the manager: the operations below take the manager as an argument.
\<close>

record 'v location_event =
  ev_external_id :: string
  ev_name :: "'v option"
  ev_distance :: "'v option"
  ev_latitude :: "'v option"
  ev_longitude :: "'v option"
  ev_attribution :: "'v option"
  ev_category :: "'v option"
  ev_publication_date :: "'v option"
  ev_location :: "'v option"
  ev_council_area :: "'v option"
  ev_status :: "'v option"
  ev_type :: "'v option"
  ev_fire :: "'v option"
  ev_size :: "'v option"
  ev_responsible_agency :: "'v option"

record 'v manager =
  feed_entries :: "(string, 'v feed_entry) fmap"
  managed_external_ids :: "string fset"

datatype 'v effect =
    DispatcherSend string
  | AddEntities "'v location_event list" bool

type_synonym 'v trace = "('v manager \<times> 'v effect) list"

subsection \<open>Constants\<close>

definition SIGNAL_DELETE_ENTITY :: "string \<Rightarrow> string" where
  "SIGNAL_DELETE_ENTITY external_id' = ''nsw_rural_fire_service_feed_delete_'' @ external_id'"

definition SIGNAL_UPDATE_ENTITY :: "string \<Rightarrow> string" where
  "SIGNAL_UPDATE_ENTITY external_id' = ''nsw_rural_fire_service_feed_update_'' @ external_id'"

subsection \<open>The entity\<close>

text \<open>\<^verbatim>\<open>NswRuralFireServiceLocationEvent.__init__\<close>\<close>

definition NswRuralFireServiceLocationEvent :: "string \<Rightarrow> 'v location_event" where
  "NswRuralFireServiceLocationEvent external_id' =
     \<lparr> ev_external_id = external_id', ev_name = None, ev_distance = None,
       ev_latitude = None, ev_longitude = None, ev_attribution = None,
       ev_category = None, ev_publication_date = None, ev_location = None,
       ev_council_area = None, ev_status = None, ev_type = None, ev_fire = None,
       ev_size = None, ev_responsible_agency = None \<rparr>"

text \<open>
  \<^verbatim>\<open>_update_from_feed\<close> assigns the fields in place, one after the other. Subscripting
  \<^verbatim>\<open>feed_entry.coordinates\<close> raises \<^verbatim>\<open>TypeError\<close> when it is \<^verbatim>\<open>None\<close>: the name and
  the distance have been assigned by then, and the error carries the entity as the
  exception leaves it.
\<close>

definition update_from_feed ::
  "'v feed_entry \<Rightarrow> 'v location_event
     \<Rightarrow> (py_error \<times> 'v location_event) + 'v location_event" where
  "update_from_feed feed_entry e =
     (let e1 = e\<lparr> ev_name := title feed_entry,
                   ev_distance := distance_to_home feed_entry \<rparr>
      in case coordinates feed_entry of
           None \<Rightarrow> Inl (TypeError, e1)
         | Some (lat, lon) \<Rightarrow>
             Inr (e1\<lparr> ev_latitude := Some lat,
                      ev_longitude := Some lon,
                      ev_attribution := attribution feed_entry,
                      ev_category := category feed_entry,
                      ev_publication_date := publication_date feed_entry,
                      ev_location := location feed_entry,
                      ev_council_area := council_area feed_entry,
                      ev_status := status feed_entry,
                      ev_type := type_attr feed_entry,
                      ev_fire := fire feed_entry,
                      ev_size := size_attr feed_entry,
                      ev_responsible_agency := responsible_agency feed_entry \<rparr>))"

text \<open>
  \<^verbatim>\<open>async_update\<close>: \<^verbatim>\<open>feed_entries.get(self._external_id)\<close> is \<^verbatim>\<open>None\<close> for an absent
  key, and \<^verbatim>\<open>if feed_entry:\<close> is then false. A feed entry object is true.
\<close>

definition async_update ::
  "'v manager \<Rightarrow> 'v location_event
     \<Rightarrow> (py_error \<times> 'v location_event) + 'v location_event" where
  "async_update feed_manager e =
     (case fmlookup (feed_entries feed_manager) (ev_external_id e) of
        None \<Rightarrow> Inr e
      | Some feed_entry \<Rightarrow> update_from_feed feed_entry e)"

subsection \<open>The feed manager\<close>

text \<open>\<^verbatim>\<open>__init__\<close>: no feed entries, no managed ids.\<close>

definition init_manager :: "'v manager" where
  "init_manager = \<lparr> feed_entries = fmempty, managed_external_ids = {||} \<rparr>"

text \<open>
  \<^verbatim>\<open>_remove_entities\<close>: \<^verbatim>\<open>set.remove\<close> raises \<^verbatim>\<open>KeyError\<close> for an element that is not
  in the set, and the exception ends the cycle. The signal is sent after the removal, so
  the state recorded with it is the state without the id.
\<close>

fun remove_entities ::
  "string list \<Rightarrow> 'v manager \<Rightarrow> py_error + ('v manager \<times> 'v trace)" where
  "remove_entities [] m = Inr (m, [])"
| "remove_entities (external_id' # external_ids) m =
     (if external_id' |\<notin>| managed_external_ids m then Inl (KeyError external_id')
      else
        let m' = m\<lparr> managed_external_ids := managed_external_ids m |-| {|external_id'|} \<rparr>
        in case remove_entities external_ids m' of
             Inl err \<Rightarrow> Inl err
           | Inr (m'', tr) \<Rightarrow>
               Inr (m'', (m', DispatcherSend (SIGNAL_DELETE_ENTITY external_id')) # tr))"

text \<open>\<^verbatim>\<open>_update_entities\<close>\<close>

fun update_entities :: "string list \<Rightarrow> 'v manager \<Rightarrow> 'v manager \<times> 'v trace" where
  "update_entities [] m = (m, [])"
| "update_entities (external_id' # external_ids) m =
     (let (m', tr) = update_entities external_ids m
      in (m', (m, DispatcherSend (SIGNAL_UPDATE_ENTITY external_id')) # tr))"

text \<open>\<^verbatim>\<open>_generate_new_entities\<close>: the loop, then the single call of \<^verbatim>\<open>add_entities\<close>.\<close>

fun new_entities_loop ::
  "string list \<Rightarrow> 'v location_event list \<Rightarrow> 'v manager \<Rightarrow> 'v location_event list \<times> 'v manager" where
  "new_entities_loop [] new_entities m = (new_entities, m)"
| "new_entities_loop (external_id' # external_ids) new_entities m =
     new_entities_loop external_ids
       (new_entities @ [NswRuralFireServiceLocationEvent external_id'])
       (m\<lparr> managed_external_ids := finsert external_id' (managed_external_ids m) \<rparr>)"

definition generate_new_entities ::
  "string list \<Rightarrow> 'v manager \<Rightarrow> 'v manager \<times> 'v trace" where
  "generate_new_entities external_ids m =
     (let (new_entities, m') = new_entities_loop external_ids [] m
      in (m', [(m', AddEntities new_entities True)]))"

text \<open>
  The dictionary comprehension \<^verbatim>\<open>{entry.external_id: entry for entry in feed_entries}\<close>:
  a later entry replaces an earlier one with the same id.
\<close>

fun entries_dict ::
  "'v feed_entry list \<Rightarrow> (string, 'v feed_entry) fmap \<Rightarrow> (string, 'v feed_entry) fmap" where
  "entries_dict [] d = d"
| "entries_dict (entry # entries) d = entries_dict entries (fmupd (external_id entry) entry d)"

text \<open>
  \<^verbatim>\<open>_update\<close>, one cycle. The argument \<open>(status, entries)\<close> is what \<^verbatim>\<open>self._feed.update()\<close>
  returned. The failure branch iterates over a copy of the managed ids.
\<close>

definition update ::
  "(string fset \<Rightarrow> string list) \<Rightarrow> update_status \<times> 'v feed_entry list \<Rightarrow> 'v manager
     \<Rightarrow> py_error + ('v manager \<times> 'v trace)" where
  "update it fetched m =
     (case fetched of (status', entries) \<Rightarrow>
        if status' = UPDATE_OK then
          let m1 = m\<lparr> feed_entries := entries_dict entries fmempty \<rparr>;
              feed_external_ids = fmdom (feed_entries m1);
              remove_external_ids = managed_external_ids m1 |-| feed_external_ids
          in case remove_entities (it remove_external_ids) m1 of
               Inl err \<Rightarrow> Inl err
             | Inr (m2, tr1) \<Rightarrow>
                 let update_external_ids = managed_external_ids m2 |\<inter>| feed_external_ids;
                     (m3, tr2) = update_entities (it update_external_ids) m2;
                     create_external_ids = feed_external_ids |-| managed_external_ids m3;
                     (m4, tr3) = generate_new_entities (it create_external_ids) m3
                 in Inr (m4, tr1 @ tr2 @ tr3)
        else if status' = UPDATE_OK_NO_DATA then Inr (m, [])
        else remove_entities (it (managed_external_ids m)) m)"

text \<open>What a trace shows: the channels signalled, and the calls of \<^verbatim>\<open>add_entities\<close>.\<close>

fun channel_of :: "'v effect \<Rightarrow> string list" where
  "channel_of (DispatcherSend c) = [c]"
| "channel_of (AddEntities new_entities flag) = []"

fun batch_of :: "'v effect \<Rightarrow> ('v location_event list \<times> bool) list" where
  "batch_of (DispatcherSend c) = []"
| "batch_of (AddEntities new_entities flag) = [(new_entities, flag)]"

definition signals :: "'v trace \<Rightarrow> string list" where
  "signals tr = concat (map (channel_of \<circ> snd) tr)"

definition registrations :: "'v trace \<Rightarrow> ('v location_event list \<times> bool) list" where
  "registrations tr = concat (map (batch_of \<circ> snd) tr)"

text \<open>An iteration order lists every element of a set, once.\<close>

definition iter_ok :: "(string fset \<Rightarrow> string list) \<Rightarrow> bool" where
  "iter_ok it \<longleftrightarrow> (\<forall>S. fset_of_list (it S) = S \<and> distinct (it S))"

subsection \<open>Example values\<close>

text \<open>
  A feed entry with the given id, a manager that tracks the given ids and holds an entry
  for each, and the iteration order used in the examples: ascending.
\<close>

definition example_entry :: "string \<Rightarrow> int feed_entry" where
  "example_entry i =
     \<lparr> external_id = i, title = None, distance_to_home = None,
       coordinates = Some (- 33, 151), attribution = None, category = None,
       publication_date = None, location = None, council_area = None, status = None,
       type_attr = None, fire = None, size_attr = None, responsible_agency = None \<rparr>"

definition tracking :: "string list \<Rightarrow> int manager" where
  "tracking ids =
     \<lparr> feed_entries = entries_dict (map example_entry ids) fmempty,
       managed_external_ids = fset_of_list ids \<rparr>"

section \<open>Properties\<close>

subsection \<open>Signal names\<close>

lemma signal_delete_inj: "SIGNAL_DELETE_ENTITY x = SIGNAL_DELETE_ENTITY y \<longleftrightarrow> x = y"
  by (simp add: SIGNAL_DELETE_ENTITY_def)

lemma signal_update_inj: "SIGNAL_UPDATE_ENTITY x = SIGNAL_UPDATE_ENTITY y \<longleftrightarrow> x = y"
  by (simp add: SIGNAL_UPDATE_ENTITY_def)

lemma signal_delete_neq_update: "SIGNAL_DELETE_ENTITY x \<noteq> SIGNAL_UPDATE_ENTITY y"
  by (simp add: SIGNAL_DELETE_ENTITY_def SIGNAL_UPDATE_ENTITY_def)

subsection \<open>Iteration orders\<close>

lemma iter_okD:
  "iter_ok it \<Longrightarrow> fset_of_list (it S) = S"
  "iter_ok it \<Longrightarrow> distinct (it S)"
  "iter_ok it \<Longrightarrow> set (it S) = fset S"
  by (auto simp: iter_ok_def fset_of_list.rep_eq [symmetric])

lemma length_iter:
  assumes "iter_ok it"
  shows "length (it S) = fcard S"
proof -
  have "length (it S) = card (set (it S))"
    using assms by (simp add: distinct_card iter_okD(2))
  then show ?thesis
    using assms by (simp add: iter_okD(3) fcard.rep_eq)
qed

lemma iter_ok_sorted: "iter_ok sorted_list_of_fset"
proof -
  have "distinct (sorted_list_of_fset S)" for S :: "string fset"
    by (simp add: sorted_list_of_fset.rep_eq)
  then show ?thesis by (simp add: iter_ok_def)
qed

lemma sorted_list_of_fset_empty: "sorted_list_of_fset {||} = []"
  by (simp add: sorted_list_of_fset.rep_eq)

lemma sorted_list_of_fset_single: "sorted_list_of_fset {|x|} = [x]"
  by (simp add: sorted_list_of_fset.rep_eq)

lemma sorted_list_of_fset_AB:
  "sorted_list_of_fset {|''A'', ''B''|} = [''A'', ''B'']"
  "sorted_list_of_fset {|''B'', ''A''|} = [''A'', ''B'']"
  by code_simp+

subsection \<open>The loops\<close>

lemma remove_entities_result:
  "distinct xs \<Longrightarrow> fset_of_list xs |\<subseteq>| managed_external_ids m \<Longrightarrow>
   \<exists>tr. remove_entities xs m =
           Inr (m\<lparr> managed_external_ids := managed_external_ids m |-| fset_of_list xs \<rparr>, tr)
      \<and> map snd tr = map (\<lambda>x. DispatcherSend (SIGNAL_DELETE_ENTITY x)) xs
      \<and> (\<forall>s\<in>fst ` set tr. feed_entries s = feed_entries m
            \<and> managed_external_ids s |\<subseteq>| managed_external_ids m)
      \<and> (\<forall>(s, eff)\<in>set tr. \<forall>x. eff = DispatcherSend (SIGNAL_DELETE_ENTITY x)
            \<longrightarrow> x |\<notin>| managed_external_ids s)"
proof (induction xs arbitrary: m)
  case Nil
  then show ?case by simp
next
  case (Cons x xs)
  let ?m' = "m\<lparr> managed_external_ids := managed_external_ids m |-| {|x|} \<rparr>"
  from Cons.prems have x: "x |\<in>| managed_external_ids m" and d: "distinct xs"
    and sub: "fset_of_list xs |\<subseteq>| managed_external_ids ?m'"
    by (auto simp: fset_of_list_elem)
  from Cons.IH [OF d sub] obtain tr where
    r: "remove_entities xs ?m' =
          Inr (?m'\<lparr> managed_external_ids := managed_external_ids ?m' |-| fset_of_list xs \<rparr>, tr)"
    and t: "map snd tr = map (\<lambda>x. DispatcherSend (SIGNAL_DELETE_ENTITY x)) xs"
    and f: "\<forall>s\<in>fst ` set tr. feed_entries s = feed_entries ?m'
            \<and> managed_external_ids s |\<subseteq>| managed_external_ids ?m'"
    and n: "\<forall>(s, eff)\<in>set tr. \<forall>x. eff = DispatcherSend (SIGNAL_DELETE_ENTITY x)
            \<longrightarrow> x |\<notin>| managed_external_ids s"
    by blast
  have eq: "managed_external_ids m |-| {|x|} |-| fset_of_list xs
            = managed_external_ids m |-| fset_of_list (x # xs)"
    by auto
  show ?case
    using x r t f n eq by (auto simp: Let_def signal_delete_inj)
qed

text \<open>Along the trace of the removals the managed ids only shrink.\<close>

lemma remove_entities_shrinks:
  "remove_entities xs m = Inr (m', tr) \<Longrightarrow>
     sorted_wrt (\<lambda>a b. managed_external_ids (fst b) |\<subseteq>| managed_external_ids (fst a)) tr
     \<and> (\<forall>s\<in>fst ` set tr. managed_external_ids s |\<subseteq>| managed_external_ids m)"
proof (induction xs arbitrary: m m' tr)
  case Nil
  then show ?case by simp
next
  case (Cons x xs)
  let ?m1 = "m\<lparr> managed_external_ids := managed_external_ids m |-| {|x|} \<rparr>"
  from Cons.prems obtain tr' where
    r: "remove_entities xs ?m1 = Inr (m', tr')"
    and tr: "tr = (?m1, DispatcherSend (SIGNAL_DELETE_ENTITY x)) # tr'"
    by (auto simp: Let_def split: if_splits sum.splits)
  from Cons.IH [OF r] show ?case
    unfolding tr by auto
qed

lemma sorted_wrt_no_trigger:
  "(\<And>a. a \<in> set xs \<Longrightarrow> \<not> P a) \<Longrightarrow> sorted_wrt (\<lambda>a b. P a \<longrightarrow> Q a b) xs"
  by (induction xs) auto

lemma update_entities_result:
  "update_entities xs m = (m, map (\<lambda>x. (m, DispatcherSend (SIGNAL_UPDATE_ENTITY x))) xs)"
  by (induction xs) auto

lemma new_entities_loop_result:
  "new_entities_loop xs acc m =
     (acc @ map NswRuralFireServiceLocationEvent xs,
      m\<lparr> managed_external_ids := managed_external_ids m |\<union>| fset_of_list xs \<rparr>)"
  by (induction xs arbitrary: acc m) auto

subsection \<open>The dictionary of feed entries\<close>

lemma fmdom_entries_dict:
  "fmdom (entries_dict es d) = fmdom d |\<union>| fset_of_list (map external_id es)"
  by (induction es arbitrary: d) auto

lemma fmdom_entries_dict_empty:
  "fmdom (entries_dict es fmempty) = fset_of_list (map external_id es)"
  by (simp add: fmdom_entries_dict del: fset_of_list_map)

lemma find_append_case:
  "find P (xs @ ys) = (case find P xs of None \<Rightarrow> find P ys | Some x \<Rightarrow> Some x)"
  by (induction xs) auto

lemma fmlookup_entries_dict:
  "fmlookup (entries_dict es d) k =
     (case find (\<lambda>e. external_id e = k) (rev es) of
        Some e \<Rightarrow> Some e
      | None \<Rightarrow> fmlookup d k)"
  by (induction es arbitrary: d) (auto simp: find_append_case split: option.splits)

lemma fmupd_neq_fmempty: "fmupd k v d \<noteq> fmempty"
proof
  assume "fmupd k v d = fmempty"
  then have "fmdom (fmupd k v d) = fmdom fmempty" by simp
  then show False by simp
qed

lemma external_id_example_entry: "external_id (example_entry i) = i"
  by (simp add: example_entry_def)

subsection \<open>One cycle\<close>

lemma manager_update_both:
  fixes m :: "'v manager"
  shows "m\<lparr> feed_entries := D, managed_external_ids := X \<rparr>
         = \<lparr> feed_entries = D, managed_external_ids = X \<rparr>"
  by (cases m) simp

lemma update_OK_result:
  fixes entries :: "'v feed_entry list" and m :: "'v manager"
  assumes it: "iter_ok it"
  defines "F \<equiv> fset_of_list (map external_id entries)"
  defines "T \<equiv> managed_external_ids m"
  defines "D \<equiv> entries_dict entries fmempty"
  shows "\<exists>tr1. update it (UPDATE_OK, entries) m =
           Inr (\<lparr> feed_entries = D, managed_external_ids = F \<rparr>,
                tr1
                @ map (\<lambda>x. (\<lparr> feed_entries = D, managed_external_ids = T |\<inter>| F \<rparr>,
                             DispatcherSend (SIGNAL_UPDATE_ENTITY x))) (it (T |\<inter>| F))
                @ [(\<lparr> feed_entries = D, managed_external_ids = F \<rparr>,
                    AddEntities (map NswRuralFireServiceLocationEvent (it (F |-| T))) True)])
         \<and> map snd tr1 = map (\<lambda>x. DispatcherSend (SIGNAL_DELETE_ENTITY x)) (it (T |-| F))
         \<and> (\<forall>s\<in>fst ` set tr1. feed_entries s = D \<and> managed_external_ids s |\<subseteq>| T)
         \<and> (\<forall>(s, eff)\<in>set tr1. \<forall>x. eff = DispatcherSend (SIGNAL_DELETE_ENTITY x)
               \<longrightarrow> x |\<notin>| managed_external_ids s)
         \<and> sorted_wrt (\<lambda>a b. managed_external_ids (fst b) |\<subseteq>| managed_external_ids (fst a)) tr1"
proof -
  let ?m1 = "m\<lparr> feed_entries := D \<rparr>"
  have dom: "fmdom D = F"
    unfolding D_def F_def by (rule fmdom_entries_dict_empty)
  have sub: "fset_of_list (it (T |-| F)) |\<subseteq>| managed_external_ids ?m1"
    using it by (auto simp: iter_okD T_def)
  from remove_entities_result [OF iter_okD(2) [OF it] sub] obtain tr1 where
    r: "remove_entities (it (T |-| F)) ?m1 =
          Inr (?m1\<lparr> managed_external_ids := T |-| (T |-| F) \<rparr>, tr1)"
    and t: "map snd tr1 = map (\<lambda>x. DispatcherSend (SIGNAL_DELETE_ENTITY x)) (it (T |-| F))"
    and f: "\<forall>s\<in>fst ` set tr1. feed_entries s = D \<and> managed_external_ids s |\<subseteq>| T"
    and n: "\<forall>(s, eff)\<in>set tr1. \<forall>x. eff = DispatcherSend (SIGNAL_DELETE_ENTITY x)
            \<longrightarrow> x |\<notin>| managed_external_ids s"
    using it by (auto simp: iter_okD T_def)
  have e1: "T |-| (T |-| F) = T |\<inter>| F" by auto
  have e2: "F |-| (T |\<inter>| F) = F |-| T" by auto
  have e3: "T |\<inter>| F |\<union>| F = F" by auto
  have "update it (UPDATE_OK, entries) m =
           Inr (\<lparr> feed_entries = D, managed_external_ids = F \<rparr>,
                tr1
                @ map (\<lambda>x. (\<lparr> feed_entries = D, managed_external_ids = T |\<inter>| F \<rparr>,
                             DispatcherSend (SIGNAL_UPDATE_ENTITY x))) (it (T |\<inter>| F))
                @ [(\<lparr> feed_entries = D, managed_external_ids = F \<rparr>,
                    AddEntities (map NswRuralFireServiceLocationEvent (it (F |-| T))) True)])"
    using r
    by (simp add: update_def Let_def D_def [symmetric] dom T_def [symmetric] e1 e2 e3
          update_entities_result generate_new_entities_def new_entities_loop_result
          iter_okD(1) [OF it] manager_update_both)
  with t f n remove_entities_shrinks [OF r] show ?thesis by blast
qed

lemma update_ERROR_result:
  assumes it: "iter_ok it" and st: "status' \<noteq> UPDATE_OK" "status' \<noteq> UPDATE_OK_NO_DATA"
  shows "\<exists>tr. update it (status', entries) m =
           Inr (m\<lparr> managed_external_ids := {||} \<rparr>, tr)
         \<and> map snd tr = map (\<lambda>x. DispatcherSend (SIGNAL_DELETE_ENTITY x))
                           (it (managed_external_ids m))
         \<and> (\<forall>s\<in>fst ` set tr. feed_entries s = feed_entries m
               \<and> managed_external_ids s |\<subseteq>| managed_external_ids m)
         \<and> (\<forall>(s, eff)\<in>set tr. \<forall>x. eff = DispatcherSend (SIGNAL_DELETE_ENTITY x)
               \<longrightarrow> x |\<notin>| managed_external_ids s)
         \<and> sorted_wrt (\<lambda>a b. managed_external_ids (fst b) |\<subseteq>| managed_external_ids (fst a)) tr"
proof -
  let ?T = "managed_external_ids m"
  have sub: "fset_of_list (it ?T) |\<subseteq>| ?T"
    using it by (simp add: iter_okD)
  from remove_entities_result [OF iter_okD(2) [OF it] sub] obtain tr where
    r: "remove_entities (it ?T) m = Inr (m\<lparr> managed_external_ids := {||} \<rparr>, tr)"
    and t: "map snd tr = map (\<lambda>x. DispatcherSend (SIGNAL_DELETE_ENTITY x)) (it ?T)"
    and f: "\<forall>s\<in>fst ` set tr. feed_entries s = feed_entries m
               \<and> managed_external_ids s |\<subseteq>| ?T"
    and n: "\<forall>(s, eff)\<in>set tr. \<forall>x. eff = DispatcherSend (SIGNAL_DELETE_ENTITY x)
               \<longrightarrow> x |\<notin>| managed_external_ids s"
    using it by (auto simp: iter_okD)
  have "update it (status', entries) m = Inr (m\<lparr> managed_external_ids := {||} \<rparr>, tr)"
    using st r by (simp add: update_def)
  with t f n remove_entities_shrinks [OF r] show ?thesis by blast
qed

subsection \<open>Reading a trace\<close>

lemma signals_append: "signals (a @ b) = signals a @ signals b"
  by (simp add: signals_def)

lemma registrations_append: "registrations (a @ b) = registrations a @ registrations b"
  by (simp add: registrations_def)

lemma signals_sends:
  assumes "map snd tr = map (\<lambda>x. DispatcherSend (f x)) xs"
  shows "signals tr = map f xs"
proof -
  have "concat (map channel_of (map (\<lambda>x. DispatcherSend (f x)) xs)) = map f xs"
    by (induction xs) auto
  with assms show ?thesis
    by (simp add: signals_def map_map [symmetric] del: map_map)
qed

lemma registrations_sends:
  assumes "map snd tr = map (\<lambda>x. DispatcherSend (f x)) xs"
  shows "registrations tr = []"
proof -
  have "concat (map batch_of (map (\<lambda>x. DispatcherSend (f x)) xs)) = []"
    by (induction xs) auto
  with assms show ?thesis
    by (simp add: registrations_def map_map [symmetric] del: map_map)
qed

lemma signals_add_entities: "signals [(s, AddEntities batch flag)] = []"
  by (simp add: signals_def)

lemma registrations_add_entities:
  "registrations [(s, AddEntities batch flag)] = [(batch, flag)]"
  by (simp add: registrations_def)

lemma count_list_map_inj:
  assumes "distinct xs" and "\<And>a b. f a = f b \<Longrightarrow> a = b"
  shows "count_list (map f xs) (f x) = (if x \<in> set xs then 1 else 0)"
  using assms by (induction xs) auto

text \<open>Rules that evaluate a cycle on the example values.\<close>

lemmas eval_simps = update_def tracking_def external_id_example_entry
  sorted_list_of_fset_single sorted_list_of_fset_empty sorted_list_of_fset_AB Let_def
  generate_new_entities_def finsert_fminus_if finter_finsert_left finsert_commute
  SIGNAL_DELETE_ENTITY_def SIGNAL_UPDATE_ENTITY_def signals_def registrations_def

subsection \<open>More on one cycle\<close>

lemma iter_empty: "iter_ok it \<Longrightarrow> it {||} = []"
  using iter_okD(3) [of it "{||}"] by simp

lemma entries_dict_keyed:
  "fmlookup (entries_dict es fmempty) k = find (\<lambda>e. external_id e = k) (rev es)"
  by (simp add: fmlookup_entries_dict split: option.splits)

lemma update_OK_observed:
  fixes entries :: "'v feed_entry list" and m :: "'v manager"
  assumes "iter_ok it"
  defines "F \<equiv> fset_of_list (map external_id entries)"
  defines "T \<equiv> managed_external_ids m"
  shows "\<exists>tr. update it (UPDATE_OK, entries) m =
                 Inr (\<lparr> feed_entries = entries_dict entries fmempty,
                        managed_external_ids = F \<rparr>, tr)
           \<and> signals tr = map SIGNAL_DELETE_ENTITY (it (T |-| F))
                           @ map SIGNAL_UPDATE_ENTITY (it (T |\<inter>| F))
           \<and> registrations tr = [(map NswRuralFireServiceLocationEvent (it (F |-| T)), True)]"
proof -
  let ?D = "entries_dict entries fmempty"
  from update_OK_result [OF assms(1), of entries m] obtain tr1 where
    u: "update it (UPDATE_OK, entries) m =
          Inr (\<lparr> feed_entries = ?D, managed_external_ids = F \<rparr>,
               tr1
               @ map (\<lambda>x. (\<lparr> feed_entries = ?D, managed_external_ids = T |\<inter>| F \<rparr>,
                            DispatcherSend (SIGNAL_UPDATE_ENTITY x))) (it (T |\<inter>| F))
               @ [(\<lparr> feed_entries = ?D, managed_external_ids = F \<rparr>,
                   AddEntities (map NswRuralFireServiceLocationEvent (it (F |-| T))) True)])"
    and t: "map snd tr1 = map (\<lambda>x. DispatcherSend (SIGNAL_DELETE_ENTITY x)) (it (T |-| F))"
    unfolding F_def T_def by blast
  have s1: "signals tr1 = map SIGNAL_DELETE_ENTITY (it (T |-| F))"
    using t by (rule signals_sends)
  have r1: "registrations tr1 = []"
    using t by (rule registrations_sends)
  have s2: "signals (map (\<lambda>x. (s, DispatcherSend (SIGNAL_UPDATE_ENTITY x))) xs)
            = map SIGNAL_UPDATE_ENTITY xs" for s :: "'v manager" and xs
    by (rule signals_sends) (simp add: comp_def)
  have r2: "registrations (map (\<lambda>x. (s, DispatcherSend (SIGNAL_UPDATE_ENTITY x))) xs) = []"
    for s :: "'v manager" and xs
    by (rule registrations_sends [where f = SIGNAL_UPDATE_ENTITY and xs = xs]) (simp add: comp_def)
  show ?thesis
    unfolding u
    by (simp add: signals_append registrations_append s1 r1 s2 r2 signals_add_entities
          registrations_add_entities)
qed

lemma delete_signal_later_states:
  assumes n: "\<forall>(s, eff)\<in>set tr. \<forall>x. eff = DispatcherSend (SIGNAL_DELETE_ENTITY x)
                \<longrightarrow> x |\<notin>| managed_external_ids s"
    and sw: "sorted_wrt (\<lambda>a b. managed_external_ids (fst b) |\<subseteq>| managed_external_ids (fst a)) tr"
  shows "sorted_wrt (\<lambda>a b. snd a = DispatcherSend (SIGNAL_DELETE_ENTITY x)
                          \<longrightarrow> x |\<notin>| managed_external_ids (fst b)) tr"
  using sw
proof (rule sorted_wrt_mono_rel [rotated])
  fix a b
  assume a: "a \<in> set tr" and "b \<in> set tr"
    and sub: "managed_external_ids (fst b) |\<subseteq>| managed_external_ids (fst a)"
  show "snd a = DispatcherSend (SIGNAL_DELETE_ENTITY x)
          \<longrightarrow> x |\<notin>| managed_external_ids (fst b)"
  proof
    assume e: "snd a = DispatcherSend (SIGNAL_DELETE_ENTITY x)"
    then have "a = (fst a, DispatcherSend (SIGNAL_DELETE_ENTITY x))"
      by (cases a) simp
    with a have "(fst a, DispatcherSend (SIGNAL_DELETE_ENTITY x)) \<in> set tr"
      by simp
    with n have "x |\<notin>| managed_external_ids (fst a)"
      by blast
    with sub show "x |\<notin>| managed_external_ids (fst b)"
      by (auto dest: fsubsetD)
  qed
qed

section \<open>The specification, statement by statement\<close>

text \<open>
  C1. When the feed reports a failure (a status that is neither \<open>UPDATE_OK\<close> nor
  \<open>UPDATE_OK_NO_DATA\<close>) while \<open>N\<close> ids are managed, the cycle returns, sends exactly one
  delete signal for each managed id and nothing else (\<open>N\<close> signals, none when \<open>N = 0\<close>),
  never calls \<^verbatim>\<open>add_entities\<close>, and leaves no id managed. The dictionary
  \<^verbatim>\<open>feed_entries\<close> is not emptied: it is what it was before the cycle.
\<close>

theorem failure_sweep:
  assumes "iter_ok it" and "status' \<noteq> UPDATE_OK" and "status' \<noteq> UPDATE_OK_NO_DATA"
  shows "\<exists>m' tr. update it (status', entries) m = Inr (m', tr)
           \<and> length tr = fcard (managed_external_ids m)
           \<and> length (signals tr) = fcard (managed_external_ids m)
           \<and> (\<forall>x. count_list (signals tr) (SIGNAL_DELETE_ENTITY x)
                  = (if x |\<in>| managed_external_ids m then 1 else 0))
           \<and> set (signals tr) = SIGNAL_DELETE_ENTITY ` fset (managed_external_ids m)
           \<and> registrations tr = []
           \<and> managed_external_ids m' = {||}
           \<and> feed_entries m' = feed_entries m"
proof -
  let ?T = "managed_external_ids m"
  from update_ERROR_result [OF assms, of entries m] obtain tr where
    u: "update it (status', entries) m = Inr (m\<lparr> managed_external_ids := {||} \<rparr>, tr)"
    and t: "map snd tr = map (\<lambda>x. DispatcherSend (SIGNAL_DELETE_ENTITY x)) (it ?T)"
    by blast
  have s: "signals tr = map SIGNAL_DELETE_ENTITY (it ?T)"
    using t by (rule signals_sends)
  have l: "length tr = fcard ?T"
    using arg_cong [OF t, of length] by (simp add: length_iter [OF assms(1)])
  have c: "count_list (signals tr) (SIGNAL_DELETE_ENTITY x) = (if x |\<in>| ?T then 1 else 0)" for x
    unfolding s
    using count_list_map_inj [of "it ?T" SIGNAL_DELETE_ENTITY x]
    by (simp add: iter_okD [OF assms(1)] signal_delete_inj)
  have r: "registrations tr = []"
    using t by (rule registrations_sends)
  show ?thesis
    using u l c r by (simp add: s length_iter [OF assms(1)] iter_okD(3) [OF assms(1)])
qed

text \<open>
  The failure sweep on a manager that tracks \<open>A\<close> and \<open>B\<close>: two delete signals, each sent
  in a state where its id is no longer managed, and both entries still in
  \<^verbatim>\<open>feed_entries\<close>.
\<close>

theorem failure_sweep_witness:
  "iter_ok sorted_list_of_fset
   \<and> UPDATE_ERROR \<noteq> UPDATE_OK \<and> UPDATE_ERROR \<noteq> UPDATE_OK_NO_DATA
   \<and> update sorted_list_of_fset (UPDATE_ERROR, []) (tracking [''A'', ''B''])
       = Inr ((tracking [''A'', ''B''])\<lparr> managed_external_ids := {||} \<rparr>,
           [((tracking [''A'', ''B''])\<lparr> managed_external_ids := {|''B''|} \<rparr>,
               DispatcherSend ''nsw_rural_fire_service_feed_delete_A''),
            ((tracking [''A'', ''B''])\<lparr> managed_external_ids := {||} \<rparr>,
               DispatcherSend ''nsw_rural_fire_service_feed_delete_B'')])
   \<and> fcard (managed_external_ids (tracking [''A'', ''B''])) = 2"
  using failure_sweep [OF iter_ok_sorted, of UPDATE_ERROR "[]" "tracking [''A'', ''B'']"]
  by (simp add: eval_simps iter_ok_sorted fcard_finsert_if)

text \<open>
  The specification has a failure leave \<^verbatim>\<open>feed_entries\<close> empty. After a failure on a
  manager that tracks \<open>A\<close>, the entry of \<open>A\<close> is still there.
\<close>

theorem failure_keeps_feed_entries_counterexample:
  "update sorted_list_of_fset (UPDATE_ERROR, []) (tracking [''A''])
     = Inr ((tracking [''A''])\<lparr> managed_external_ids := {||} \<rparr>,
         [((tracking [''A''])\<lparr> managed_external_ids := {||} \<rparr>,
             DispatcherSend ''nsw_rural_fire_service_feed_delete_A'')])
   \<and> feed_entries ((tracking [''A''])\<lparr> managed_external_ids := {||} \<rparr>) \<noteq> fmempty
   \<and> fmlookup (feed_entries ((tracking [''A''])\<lparr> managed_external_ids := {||} \<rparr>)) ''A''
       = Some (example_entry ''A'')"
  by (simp add: eval_simps fmupd_neq_fmempty)

text \<open>
  C2. Starting from a state in which the managed ids are the keys of \<^verbatim>\<open>feed_entries\<close>,
  a cycle returns, and after a cycle with status \<open>UPDATE_OK\<close> or \<open>UPDATE_OK_NO_DATA\<close> the
  managed ids are again the keys of \<^verbatim>\<open>feed_entries\<close>. After a failure no id is managed
  while \<^verbatim>\<open>feed_entries\<close> keeps the keys it had, so the two agree only when no id was
  managed before.
\<close>

theorem cycle_keeps_managed_eq_keys:
  assumes "iter_ok it" and "managed_external_ids m = fmdom (feed_entries m)"
  shows "\<exists>m' tr. update it (status', entries) m = Inr (m', tr)
           \<and> (if status' = UPDATE_OK \<or> status' = UPDATE_OK_NO_DATA
               then managed_external_ids m' = fmdom (feed_entries m')
               else managed_external_ids m' = {||}
                    \<and> fmdom (feed_entries m') = managed_external_ids m)"
proof (cases status')
  case UPDATE_OK
  from update_OK_result [OF assms(1), of entries m] show ?thesis
    unfolding UPDATE_OK by (auto simp: fmdom_entries_dict_empty)
next
  case UPDATE_OK_NO_DATA
  then show ?thesis using assms(2) by (simp add: update_def)
next
  case UPDATE_ERROR
  from update_ERROR_result [OF assms(1), of UPDATE_ERROR entries m] show ?thesis
    unfolding UPDATE_ERROR using assms(2) by auto
qed

text \<open>
  Tracking \<open>A\<close> and \<open>B\<close>, the feed returns \<open>B\<close> and \<open>C\<close>: one delete signal for \<open>A\<close>,
  one update signal for \<open>B\<close>, one entity created for \<open>C\<close>.
\<close>

theorem cycle_keeps_managed_eq_keys_witness:
  "iter_ok sorted_list_of_fset
   \<and> managed_external_ids (tracking [''A'', ''B'']) = fmdom (feed_entries (tracking [''A'', ''B'']))
   \<and> update sorted_list_of_fset (UPDATE_OK, [example_entry ''B'', example_entry ''C''])
        (tracking [''A'', ''B''])
       = Inr (tracking [''B'', ''C''],
           [((tracking [''B'', ''C''])\<lparr> managed_external_ids := {|''B''|} \<rparr>,
               DispatcherSend ''nsw_rural_fire_service_feed_delete_A''),
            ((tracking [''B'', ''C''])\<lparr> managed_external_ids := {|''B''|} \<rparr>,
               DispatcherSend ''nsw_rural_fire_service_feed_update_B''),
            (tracking [''B'', ''C''],
               AddEntities [NswRuralFireServiceLocationEvent ''C''] True)])
   \<and> managed_external_ids (tracking [''B'', ''C'']) = fmdom (feed_entries (tracking [''B'', ''C'']))"
  using cycle_keeps_managed_eq_keys [OF iter_ok_sorted, of "tracking [''A'', ''B'']" UPDATE_OK
      "[example_entry ''B'', example_entry ''C'']"]
  by (simp add: eval_simps iter_ok_sorted)

text \<open>
  After a failure on a manager that tracks \<open>A\<close> and holds its entry, no id is managed
  but \<open>A\<close> is still a key of \<^verbatim>\<open>feed_entries\<close>.
\<close>

theorem failure_breaks_managed_eq_keys_counterexample:
  "managed_external_ids (tracking [''A'']) = fmdom (feed_entries (tracking [''A'']))
   \<and> update sorted_list_of_fset (UPDATE_ERROR, []) (tracking [''A''])
       = Inr ((tracking [''A''])\<lparr> managed_external_ids := {||} \<rparr>,
           [((tracking [''A''])\<lparr> managed_external_ids := {||} \<rparr>,
               DispatcherSend ''nsw_rural_fire_service_feed_delete_A'')])
   \<and> managed_external_ids ((tracking [''A''])\<lparr> managed_external_ids := {||} \<rparr>)
       \<noteq> fmdom (feed_entries ((tracking [''A''])\<lparr> managed_external_ids := {||} \<rparr>))"
  by (simp add: eval_simps fempty_not_finsert)

text \<open>
  C3. A cycle with status \<open>UPDATE_OK_NO_DATA\<close> returns the manager as it was, both
  \<^verbatim>\<open>feed_entries\<close> and the managed ids, and its trace is empty: no signal is sent and
  \<^verbatim>\<open>add_entities\<close> is not called.
\<close>

theorem no_data_cycle_is_noop:
  "update it (UPDATE_OK_NO_DATA, entries) m = Inr (m, [])"
  by (simp add: update_def)

text \<open>
  C4. A cycle with status \<open>UPDATE_OK\<close> returns. Writing \<open>T\<close> for the ids managed before
  and \<open>F\<close> for the ids of the fetched entries: \<^verbatim>\<open>feed_entries\<close> afterwards maps each
  id to the last fetched entry with that id and has no other key, whatever it held
  before; delete signals go to \<open>T - F\<close>, update signals to \<open>T \<inter> F\<close>, entities are
  created for \<open>F - T\<close>; the three sets are pairwise disjoint; and the managed ids
  afterwards are exactly \<open>F\<close>.
\<close>

theorem ok_cycle_partition:
  fixes entries :: "'v feed_entry list" and m :: "'v manager"
  assumes "iter_ok it"
  defines "F \<equiv> fset_of_list (map external_id entries)"
  defines "T \<equiv> managed_external_ids m"
  shows "\<exists>m' tr. update it (UPDATE_OK, entries) m = Inr (m', tr)
           \<and> (\<forall>k. fmlookup (feed_entries m') k = find (\<lambda>e. external_id e = k) (rev entries))
           \<and> fmdom (feed_entries m') = F
           \<and> signals tr = map SIGNAL_DELETE_ENTITY (it (T |-| F))
                           @ map SIGNAL_UPDATE_ENTITY (it (T |\<inter>| F))
           \<and> registrations tr = [(map NswRuralFireServiceLocationEvent (it (F |-| T)), True)]
           \<and> (T |-| F) |\<inter>| (T |\<inter>| F) = {||}
           \<and> (T |-| F) |\<inter>| (F |-| T) = {||}
           \<and> (T |\<inter>| F) |\<inter>| (F |-| T) = {||}
           \<and> managed_external_ids m' = F"
proof -
  from update_OK_observed [OF assms(1), of entries m] obtain tr where
    u: "update it (UPDATE_OK, entries) m =
          Inr (\<lparr> feed_entries = entries_dict entries fmempty, managed_external_ids = F \<rparr>, tr)"
    and s: "signals tr = map SIGNAL_DELETE_ENTITY (it (T |-| F))
                         @ map SIGNAL_UPDATE_ENTITY (it (T |\<inter>| F))"
    and r: "registrations tr = [(map NswRuralFireServiceLocationEvent (it (F |-| T)), True)]"
    unfolding F_def T_def by blast
  have d: "(T |-| F) |\<inter>| (T |\<inter>| F) = {||}" "(T |-| F) |\<inter>| (F |-| T) = {||}"
    "(T |\<inter>| F) |\<inter>| (F |-| T) = {||}"
    by auto
  have dom: "fmdom (entries_dict entries fmempty) = F"
    unfolding F_def by (rule fmdom_entries_dict_empty)
  show ?thesis
    unfolding u by (simp add: s r d dom entries_dict_keyed)
qed

text \<open>The same cycle, with what \<^verbatim>\<open>feed_entries\<close> holds afterwards.\<close>

theorem ok_cycle_partition_witness:
  "iter_ok sorted_list_of_fset
   \<and> update sorted_list_of_fset (UPDATE_OK, [example_entry ''B'', example_entry ''C''])
        (tracking [''A'', ''B''])
       = Inr (tracking [''B'', ''C''],
           [((tracking [''B'', ''C''])\<lparr> managed_external_ids := {|''B''|} \<rparr>,
               DispatcherSend ''nsw_rural_fire_service_feed_delete_A''),
            ((tracking [''B'', ''C''])\<lparr> managed_external_ids := {|''B''|} \<rparr>,
               DispatcherSend ''nsw_rural_fire_service_feed_update_B''),
            (tracking [''B'', ''C''],
               AddEntities [NswRuralFireServiceLocationEvent ''C''] True)])
   \<and> managed_external_ids (tracking [''B'', ''C'']) = {|''B'', ''C''|}
   \<and> fmlookup (feed_entries (tracking [''B'', ''C''])) ''A'' = None
   \<and> fmlookup (feed_entries (tracking [''B'', ''C''])) ''B'' = Some (example_entry ''B'')
   \<and> fmlookup (feed_entries (tracking [''B'', ''C''])) ''C'' = Some (example_entry ''C'')"
  using ok_cycle_partition [OF iter_ok_sorted, of "[example_entry ''B'', example_entry ''C'']"
      "tracking [''A'', ''B'']"]
  by (simp add: eval_simps iter_ok_sorted)

text \<open>
  C5. The trace of a cycle with status \<open>UPDATE_OK\<close> is three parts in this order: the
  delete signals for \<open>T - F\<close>, then the update signals for \<open>T \<inter> F\<close>, then the one call
  of \<^verbatim>\<open>add_entities\<close> with the entities created for \<open>F - T\<close>. The states recorded
  with them show the same order of the work: while the delete signals are sent no new id
  has been added, the update signals are sent when the managed ids are \<open>T \<inter> F\<close> (every
  removal done, nothing created), and \<^verbatim>\<open>add_entities\<close> is called when they are \<open>F\<close>.
\<close>

theorem ok_cycle_order:
  fixes entries :: "'v feed_entry list" and m :: "'v manager"
  assumes "iter_ok it"
  defines "F \<equiv> fset_of_list (map external_id entries)"
  defines "T \<equiv> managed_external_ids m"
  shows "\<exists>m' tr1 tr2 tr3.
           update it (UPDATE_OK, entries) m = Inr (m', tr1 @ tr2 @ tr3)
           \<and> map snd tr1 = map (\<lambda>x. DispatcherSend (SIGNAL_DELETE_ENTITY x)) (it (T |-| F))
           \<and> map snd tr2 = map (\<lambda>x. DispatcherSend (SIGNAL_UPDATE_ENTITY x)) (it (T |\<inter>| F))
           \<and> map snd tr3 = [AddEntities (map NswRuralFireServiceLocationEvent (it (F |-| T))) True]
           \<and> (\<forall>s\<in>fst ` set tr1. managed_external_ids s |\<subseteq>| T)
           \<and> (\<forall>s\<in>fst ` set tr2. managed_external_ids s = T |\<inter>| F)
           \<and> (\<forall>s\<in>fst ` set tr3. managed_external_ids s = F)"
proof -
  let ?D = "entries_dict entries fmempty"
  let ?tr2 = "map (\<lambda>x. (\<lparr> feed_entries = ?D, managed_external_ids = T |\<inter>| F \<rparr>,
                            DispatcherSend (SIGNAL_UPDATE_ENTITY x))) (it (T |\<inter>| F))"
  let ?tr3 = "[(\<lparr> feed_entries = ?D, managed_external_ids = F \<rparr>,
                   AddEntities (map NswRuralFireServiceLocationEvent (it (F |-| T))) True)]"
  from update_OK_result [OF assms(1), of entries m] obtain tr1 where
    u: "update it (UPDATE_OK, entries) m =
          Inr (\<lparr> feed_entries = ?D, managed_external_ids = F \<rparr>, tr1 @ ?tr2 @ ?tr3)"
    and t: "map snd tr1 = map (\<lambda>x. DispatcherSend (SIGNAL_DELETE_ENTITY x)) (it (T |-| F))"
    and f: "\<forall>s\<in>fst ` set tr1. feed_entries s = ?D \<and> managed_external_ids s |\<subseteq>| T"
    unfolding F_def T_def by blast
  have f': "\<forall>s\<in>fst ` set tr1. managed_external_ids s |\<subseteq>| T"
    using f by blast
  have t2: "map snd ?tr2 = map (\<lambda>x. DispatcherSend (SIGNAL_UPDATE_ENTITY x)) (it (T |\<inter>| F))"
    by (simp add: comp_def)
  have f2: "\<forall>s\<in>fst ` set ?tr2. managed_external_ids s = T |\<inter>| F"
    by auto
  have t3: "map snd ?tr3 = [AddEntities (map NswRuralFireServiceLocationEvent (it (F |-| T))) True]"
    by simp
  have f3: "\<forall>s\<in>fst ` set ?tr3. managed_external_ids s = F"
    by simp
  show ?thesis
    apply (rule exI [of _ "\<lparr> feed_entries = ?D, managed_external_ids = F \<rparr>"])
    apply (rule exI [of _ tr1])
    apply (rule exI [of _ ?tr2])
    apply (rule exI [of _ ?tr3])
    apply (intro conjI)
          apply (rule u)
         apply (rule t)
        apply (rule t2)
       apply (rule t3)
      apply (rule f')
     apply (rule f2)
    apply (rule f3)
    done
qed

text \<open>The three parts of the trace, with the fetched entries and the managed ids in another order.\<close>

theorem ok_cycle_order_witness:
  "iter_ok sorted_list_of_fset
   \<and> update sorted_list_of_fset (UPDATE_OK, [example_entry ''C'', example_entry ''B''])
        (tracking [''B'', ''A''])
       = Inr (tracking [''C'', ''B''],
           [((tracking [''C'', ''B''])\<lparr> managed_external_ids := {|''B''|} \<rparr>,
               DispatcherSend ''nsw_rural_fire_service_feed_delete_A'')]
           @ [((tracking [''C'', ''B''])\<lparr> managed_external_ids := {|''B''|} \<rparr>,
               DispatcherSend ''nsw_rural_fire_service_feed_update_B'')]
           @ [(tracking [''C'', ''B''],
               AddEntities [NswRuralFireServiceLocationEvent ''C''] True)])"
  using ok_cycle_order [OF iter_ok_sorted, of "[example_entry ''C'', example_entry ''B'']"
      "tracking [''B'', ''A'']"]
  by (simp add: eval_simps iter_ok_sorted)

text \<open>
  C6. In every cycle, whatever the status, the ids with a delete signal in the trace are
  exactly the ids processed for removal (\<open>T - F\<close> on \<open>UPDATE_OK\<close>, none on
  \<open>UPDATE_OK_NO_DATA\<close>, all of \<open>T\<close> on a failure). The state recorded with the delete
  signal of an id does not manage that id: the removal comes first. Nor does any state
  recorded later in the trace, nor the state at the end of the cycle.
\<close>

theorem delete_signal_after_removal:
  fixes entries :: "'v feed_entry list" and m :: "'v manager" and status' :: update_status
  assumes "iter_ok it"
  defines "F \<equiv> fset_of_list (map external_id entries)"
  defines "T \<equiv> managed_external_ids m"
  defines "R \<equiv> (if status' = UPDATE_OK then T |-| F
                 else if status' = UPDATE_OK_NO_DATA then {||} else T)"
  shows "\<exists>m' tr. update it (status', entries) m = Inr (m', tr)
           \<and> (\<forall>x. SIGNAL_DELETE_ENTITY x \<in> set (signals tr) \<longleftrightarrow> x |\<in>| R)
           \<and> (\<forall>s x. (s, DispatcherSend (SIGNAL_DELETE_ENTITY x)) \<in> set tr
                  \<longrightarrow> x |\<notin>| managed_external_ids s)
           \<and> (\<forall>x. sorted_wrt (\<lambda>a b. snd a = DispatcherSend (SIGNAL_DELETE_ENTITY x)
                                    \<longrightarrow> x |\<notin>| managed_external_ids (fst b)) tr)
           \<and> (\<forall>x. x |\<in>| R \<longrightarrow> x |\<notin>| managed_external_ids m')"
proof (cases status')
  case UPDATE_OK
  let ?D = "entries_dict entries fmempty"
  let ?tr2 = "map (\<lambda>x. (\<lparr> feed_entries = ?D, managed_external_ids = T |\<inter>| F \<rparr>,
                            DispatcherSend (SIGNAL_UPDATE_ENTITY x))) (it (T |\<inter>| F))"
  let ?tr3 = "[(\<lparr> feed_entries = ?D, managed_external_ids = F \<rparr>,
                   AddEntities (map NswRuralFireServiceLocationEvent (it (F |-| T))) True)]"
  from update_OK_result [OF assms(1), of entries m] obtain tr1 where
    u: "update it (UPDATE_OK, entries) m =
          Inr (\<lparr> feed_entries = ?D, managed_external_ids = F \<rparr>, tr1 @ ?tr2 @ ?tr3)"
    and t: "map snd tr1 = map (\<lambda>x. DispatcherSend (SIGNAL_DELETE_ENTITY x)) (it (T |-| F))"
    and n: "\<forall>(s, eff)\<in>set tr1. \<forall>x. eff = DispatcherSend (SIGNAL_DELETE_ENTITY x)
               \<longrightarrow> x |\<notin>| managed_external_ids s"
    and sw: "sorted_wrt (\<lambda>a b. managed_external_ids (fst b) |\<subseteq>| managed_external_ids (fst a)) tr1"
    unfolding F_def T_def by blast
  have s1: "signals tr1 = map SIGNAL_DELETE_ENTITY (it (T |-| F))"
    using t by (rule signals_sends)
  have s2: "signals ?tr2 = map SIGNAL_UPDATE_ENTITY (it (T |\<inter>| F))"
    by (rule signals_sends) (simp add: comp_def)
  have a: "SIGNAL_DELETE_ENTITY x \<in> set (signals (tr1 @ ?tr2 @ ?tr3)) \<longleftrightarrow> x |\<in>| R" for x
    unfolding R_def UPDATE_OK
    by (auto simp: signals_append s1 s2 signals_add_entities iter_okD(3) [OF assms(1)]
          signal_delete_inj signal_delete_neq_update
          signal_delete_neq_update [symmetric])
  have b: "(s, DispatcherSend (SIGNAL_DELETE_ENTITY x)) \<in> set (tr1 @ ?tr2 @ ?tr3)
           \<Longrightarrow> x |\<notin>| managed_external_ids s" for s x
    using n by (auto simp: signal_delete_neq_update
          signal_delete_neq_update [symmetric])
  have c: "x |\<in>| R \<Longrightarrow> x |\<notin>| F" for x
    unfolding R_def UPDATE_OK by simp
  have in1: "x |\<in>| T |-| F" if "a \<in> set tr1" "snd a = DispatcherSend (SIGNAL_DELETE_ENTITY x)"
    for a x
  proof -
    from that have "DispatcherSend (SIGNAL_DELETE_ENTITY x) \<in> set (map snd tr1)"
      by force
    then show ?thesis
      unfolding t by (auto simp: signal_delete_inj iter_okD(3) [OF assms(1)])
  qed
  have d: "sorted_wrt (\<lambda>a b. snd a = DispatcherSend (SIGNAL_DELETE_ENTITY x)
                               \<longrightarrow> x |\<notin>| managed_external_ids (fst b)) (tr1 @ ?tr2 @ ?tr3)" for x
  proof -
    let ?P = "\<lambda>a b. snd a = DispatcherSend (SIGNAL_DELETE_ENTITY x)
                \<longrightarrow> x |\<notin>| managed_external_ids (fst b)"
    have p1: "sorted_wrt ?P tr1"
      using n sw by (rule delete_signal_later_states)
    have p2: "sorted_wrt ?P (?tr2 @ ?tr3)"
      by (rule sorted_wrt_no_trigger) (auto simp: signal_delete_neq_update
          signal_delete_neq_update [symmetric])
    have p3: "?P a b" if "a \<in> set tr1" "b \<in> set (?tr2 @ ?tr3)" for a b
      using in1 [OF that(1)] that(2) by auto
    from p1 p2 p3 show ?thesis
      unfolding sorted_wrt_append by blast
  qed
  show ?thesis
    unfolding UPDATE_OK u using a b c d by auto
next
  case UPDATE_OK_NO_DATA
  then show ?thesis by (simp add: update_def R_def signals_def)
next
  case UPDATE_ERROR
  from update_ERROR_result [OF assms(1), of UPDATE_ERROR entries m] obtain tr where
    u: "update it (UPDATE_ERROR, entries) m = Inr (m\<lparr> managed_external_ids := {||} \<rparr>, tr)"
    and t: "map snd tr = map (\<lambda>x. DispatcherSend (SIGNAL_DELETE_ENTITY x)) (it T)"
    and n: "\<forall>(s, eff)\<in>set tr. \<forall>x. eff = DispatcherSend (SIGNAL_DELETE_ENTITY x)
               \<longrightarrow> x |\<notin>| managed_external_ids s"
    and sw: "sorted_wrt (\<lambda>a b. managed_external_ids (fst b) |\<subseteq>| managed_external_ids (fst a)) tr"
    unfolding T_def by auto
  have s: "signals tr = map SIGNAL_DELETE_ENTITY (it T)"
    using t by (rule signals_sends)
  have a: "SIGNAL_DELETE_ENTITY x \<in> set (signals tr) \<longleftrightarrow> x |\<in>| R" for x
    unfolding R_def UPDATE_ERROR
    by (auto simp: s iter_okD(3) [OF assms(1)] signal_delete_inj)
  have d: "sorted_wrt (\<lambda>a b. snd a = DispatcherSend (SIGNAL_DELETE_ENTITY x)
                               \<longrightarrow> x |\<notin>| managed_external_ids (fst b)) tr" for x
    using n sw by (rule delete_signal_later_states)
  show ?thesis
    unfolding UPDATE_ERROR u using a n d by auto
qed

text \<open>Tracking \<open>A\<close> and \<open>B\<close>, the feed returns \<open>B\<close> alone: \<open>A\<close> is gone when its signal is sent.\<close>

theorem delete_signal_after_removal_witness:
  "iter_ok sorted_list_of_fset
   \<and> update sorted_list_of_fset (UPDATE_OK, [example_entry ''B'']) (tracking [''A'', ''B''])
       = Inr (tracking [''B''],
           [(tracking [''B''], DispatcherSend ''nsw_rural_fire_service_feed_delete_A''),
            (tracking [''B''], DispatcherSend ''nsw_rural_fire_service_feed_update_B''),
            (tracking [''B''], AddEntities [] True)])
   \<and> ''A'' |\<notin>| managed_external_ids (tracking [''B''])"
  using delete_signal_after_removal [OF iter_ok_sorted, of UPDATE_OK "[example_entry ''B'']"
      "tracking [''A'', ''B'']"]
  by (simp add: eval_simps iter_ok_sorted)

text \<open>
  C7. Two cycles in a row with status \<open>UPDATE_OK\<close>, both fetching entries whose ids are
  the set \<open>S\<close>: both return, and the second one sends exactly one update signal for each
  id of \<open>S\<close> and no other signal (\<open>|S|\<close> signals, no delete signal), creates no entity
  (its one call of \<^verbatim>\<open>add_entities\<close> passes the empty list), and leaves the managed
  ids as they were, namely \<open>S\<close>. The two cycles may iterate in different orders.
\<close>

theorem repeated_ok_cycle:
  fixes entries1 entries2 :: "'v feed_entry list" and m :: "'v manager"
  assumes "iter_ok it1" and "iter_ok it2"
    and "fset_of_list (map external_id entries1) = S"
    and "fset_of_list (map external_id entries2) = S"
  shows "\<exists>m1 tr1 m2 tr2.
           update it1 (UPDATE_OK, entries1) m = Inr (m1, tr1)
           \<and> update it2 (UPDATE_OK, entries2) m1 = Inr (m2, tr2)
           \<and> (\<forall>x. count_list (signals tr2) (SIGNAL_UPDATE_ENTITY x)
                  = (if x |\<in>| S then 1 else 0))
           \<and> (\<forall>x. count_list (signals tr2) (SIGNAL_DELETE_ENTITY x) = 0)
           \<and> length (signals tr2) = fcard S
           \<and> registrations tr2 = [([], True)]
           \<and> managed_external_ids m1 = S
           \<and> managed_external_ids m2 = managed_external_ids m1"
proof -
  let ?m1 = "\<lparr> feed_entries = entries_dict entries1 fmempty, managed_external_ids = S \<rparr>"
  let ?m2 = "\<lparr> feed_entries = entries_dict entries2 fmempty, managed_external_ids = S \<rparr>"
  from update_OK_observed [OF assms(1), of entries1 m] obtain tr1 where
    u1: "update it1 (UPDATE_OK, entries1) m = Inr (?m1, tr1)"
    unfolding assms(3) by blast
  from update_OK_observed [OF assms(2), of entries2 ?m1] obtain tr2 where
    u2: "update it2 (UPDATE_OK, entries2) ?m1 = Inr (?m2, tr2)"
    and s: "signals tr2 = map SIGNAL_UPDATE_ENTITY (it2 S)"
    and r: "registrations tr2 = [([], True)]"
    unfolding assms(4) by (auto simp: iter_empty [OF assms(2)])
  have c: "count_list (signals tr2) (SIGNAL_UPDATE_ENTITY x) = (if x |\<in>| S then 1 else 0)" for x
    unfolding s
    using count_list_map_inj [of "it2 S" SIGNAL_UPDATE_ENTITY x]
    by (simp add: iter_okD [OF assms(2)] signal_update_inj)
  have d: "count_list (signals tr2) (SIGNAL_DELETE_ENTITY x) = 0" for x
    unfolding s by (auto simp: count_list_0_iff signal_delete_neq_update
          signal_delete_neq_update [symmetric])
  have l: "length (signals tr2) = fcard S"
    unfolding s by (simp add: length_iter [OF assms(2)])
  show ?thesis
    apply (rule exI [of _ ?m1])
    apply (rule exI [of _ tr1])
    apply (rule exI [of _ ?m2])
    apply (rule exI [of _ tr2])
    using u1 u2 c d l r apply simp
    done
qed

text \<open>From the initial manager, the feed returns \<open>A\<close> and \<open>B\<close> twice.\<close>

theorem repeated_ok_cycle_witness:
  "iter_ok sorted_list_of_fset
   \<and> fset_of_list (map external_id [example_entry ''A'', example_entry ''B'']) = {|''A'', ''B''|}
   \<and> update sorted_list_of_fset (UPDATE_OK, [example_entry ''A'', example_entry ''B''])
        init_manager
       = Inr (tracking [''A'', ''B''],
           [(tracking [''A'', ''B''],
               AddEntities [NswRuralFireServiceLocationEvent ''A'',
                            NswRuralFireServiceLocationEvent ''B''] True)])
   \<and> update sorted_list_of_fset (UPDATE_OK, [example_entry ''A'', example_entry ''B''])
        (tracking [''A'', ''B''])
       = Inr (tracking [''A'', ''B''],
           [(tracking [''A'', ''B''], DispatcherSend ''nsw_rural_fire_service_feed_update_A''),
            (tracking [''A'', ''B''], DispatcherSend ''nsw_rural_fire_service_feed_update_B''),
            (tracking [''A'', ''B''], AddEntities [] True)])"
  using repeated_ok_cycle [OF iter_ok_sorted iter_ok_sorted,
      of "[example_entry ''A'', example_entry ''B'']" "{|''A'', ''B''|}"
         "[example_entry ''A'', example_entry ''B'']" init_manager]
  by (simp add: eval_simps iter_ok_sorted init_manager_def)

text \<open>
  C8. A cycle with status \<open>UPDATE_OK\<close> calls \<^verbatim>\<open>add_entities\<close> once, with one batch:
  the batch holds one freshly initialised entity for each id of \<open>F - T\<close> and no other
  (its ids are distinct and are exactly \<open>F - T\<close>), and each of these ids is managed
  afterwards.
\<close>

theorem ok_cycle_registers_batch:
  fixes entries :: "'v feed_entry list" and m :: "'v manager"
  assumes "iter_ok it"
  defines "F \<equiv> fset_of_list (map external_id entries)"
  defines "T \<equiv> managed_external_ids m"
  shows "\<exists>m' tr batch.
           update it (UPDATE_OK, entries) m = Inr (m', tr)
           \<and> registrations tr = [(batch, True)]
           \<and> batch = map NswRuralFireServiceLocationEvent (map ev_external_id batch)
           \<and> distinct (map ev_external_id batch)
           \<and> set (map ev_external_id batch) = fset (F |-| T)
           \<and> length batch = fcard (F |-| T)
           \<and> F |-| T |\<subseteq>| managed_external_ids m'"
proof -
  let ?ids = "it (F |-| T)"
  let ?batch = "map NswRuralFireServiceLocationEvent ?ids :: 'v location_event list"
  from update_OK_observed [OF assms(1), of entries m] obtain tr where
    u: "update it (UPDATE_OK, entries) m =
          Inr (\<lparr> feed_entries = entries_dict entries fmempty, managed_external_ids = F \<rparr>, tr)"
    and r: "registrations tr = [(?batch, True)]"
    unfolding F_def T_def by blast
  have ids: "map ev_external_id ?batch = ?ids"
    by (simp add: comp_def NswRuralFireServiceLocationEvent_def)
  have sub: "F |-| T |\<subseteq>| F"
    by auto
  show ?thesis
    apply (rule exI [of _ "\<lparr> feed_entries = entries_dict entries fmempty,
                             managed_external_ids = F \<rparr>"])
    apply (rule exI [of _ tr])
    apply (rule exI [of _ ?batch])
    unfolding ids
    using u r sub
    apply (simp add: iter_okD [OF assms(1)] length_iter [OF assms(1)])
    done
qed

text \<open>The first cycle of a manager: both entities in one batch.\<close>

theorem ok_cycle_registers_batch_witness:
  "iter_ok sorted_list_of_fset
   \<and> update sorted_list_of_fset (UPDATE_OK, [example_entry ''A'', example_entry ''B''])
        (init_manager :: int manager)
       = Inr (tracking [''A'', ''B''],
           [(tracking [''A'', ''B''],
               AddEntities [NswRuralFireServiceLocationEvent ''A'',
                            NswRuralFireServiceLocationEvent ''B''] True)])
   \<and> registrations
        [(tracking [''A'', ''B''],
            AddEntities [NswRuralFireServiceLocationEvent ''A'',
                         NswRuralFireServiceLocationEvent ''B''] True)]
       = [([NswRuralFireServiceLocationEvent ''A'', NswRuralFireServiceLocationEvent ''B''], True)]"
  using ok_cycle_registers_batch [OF iter_ok_sorted,
      of "[example_entry ''A'', example_entry ''B'']" init_manager]
  by (simp add: eval_simps iter_ok_sorted init_manager_def)

text \<open>
  C9. When \<^verbatim>\<open>feed_entries\<close> of the manager has no entry for the id of an entity,
  \<^verbatim>\<open>async_update\<close> returns the entity unchanged, every field as it was.
\<close>

theorem async_update_absent_entry:
  assumes "fmlookup (feed_entries feed_manager) (ev_external_id e) = None"
  shows "async_update feed_manager e = Inr e"
  using assms by (simp add: async_update_def)

text \<open>An entity for \<open>B\<close>, updated from a manager that holds an entry for \<open>A\<close> only.\<close>

theorem async_update_absent_entry_witness:
  "fmlookup (feed_entries (tracking [''A''])) (ev_external_id (NswRuralFireServiceLocationEvent ''B'' :: int location_event)) = None
   \<and> async_update (tracking [''A'']) (NswRuralFireServiceLocationEvent ''B'')
        = Inr (NswRuralFireServiceLocationEvent ''B'')"
  using async_update_absent_entry [of "tracking [''A'']" "NswRuralFireServiceLocationEvent ''B''"]
  by (simp add: eval_simps NswRuralFireServiceLocationEvent_def)

text \<open>
  C10. A cycle with status \<open>UPDATE_OK\<close> calls \<^verbatim>\<open>add_entities\<close> exactly once, with the
  flag \<open>True\<close>, and with the empty list when there is no id to create. A cycle with any
  other status does not call it.
\<close>

theorem add_entities_calls:
  fixes entries :: "'v feed_entry list" and m :: "'v manager" and status' :: update_status
  assumes "iter_ok it"
  defines "F \<equiv> fset_of_list (map external_id entries)"
  defines "T \<equiv> managed_external_ids m"
  shows "\<exists>m' tr. update it (status', entries) m = Inr (m', tr)
           \<and> (if status' = UPDATE_OK
               then \<exists>batch. registrations tr = [(batch, True)]
                      \<and> (F |-| T = {||} \<longrightarrow> batch = [])
               else registrations tr = [])"
proof (cases status')
  case UPDATE_OK
  from update_OK_observed [OF assms(1), of entries m] obtain m' tr where
    u: "update it (UPDATE_OK, entries) m = Inr (m', tr)"
    and r: "registrations tr = [(map NswRuralFireServiceLocationEvent (it (F |-| T)), True)]"
    unfolding F_def T_def by blast
  have "map NswRuralFireServiceLocationEvent (it (F |-| T)) = ([] :: 'v location_event list)"
    if "F |-| T = {||}"
    by (simp only: that iter_empty [OF assms(1)] list.map)
  with u r show ?thesis
    unfolding UPDATE_OK by simp
next
  case UPDATE_OK_NO_DATA
  then show ?thesis by (simp add: update_def registrations_def)
next
  case UPDATE_ERROR
  from update_ERROR_result [OF assms(1), of UPDATE_ERROR entries m] obtain tr where
    u: "update it (UPDATE_ERROR, entries) m = Inr (m\<lparr> managed_external_ids := {||} \<rparr>, tr)"
    and t: "map snd tr = map (\<lambda>x. DispatcherSend (SIGNAL_DELETE_ENTITY x)) (it T)"
    unfolding T_def by auto
  have "registrations tr = []"
    using t by (rule registrations_sends)
  then show ?thesis
    unfolding UPDATE_ERROR u by simp
qed

text \<open>Tracking \<open>A\<close>: the three outcomes of the fetch.\<close>

theorem add_entities_calls_witness:
  "iter_ok sorted_list_of_fset
   \<and> update sorted_list_of_fset (UPDATE_OK, [example_entry ''A'']) (tracking [''A''])
       = Inr (tracking [''A''],
           [(tracking [''A''], DispatcherSend ''nsw_rural_fire_service_feed_update_A''),
            (tracking [''A''], AddEntities [] True)])
   \<and> registrations
        [(tracking [''A''], DispatcherSend ''nsw_rural_fire_service_feed_update_A''),
         (tracking [''A''], AddEntities [] True)]
       = [([], True)]
   \<and> update sorted_list_of_fset (UPDATE_OK_NO_DATA, []) (tracking [''A''])
       = Inr (tracking [''A''], [])
   \<and> update sorted_list_of_fset (UPDATE_ERROR, []) (tracking [''A''])
       = Inr ((tracking [''A''])\<lparr> managed_external_ids := {||} \<rparr>,
           [((tracking [''A''])\<lparr> managed_external_ids := {||} \<rparr>,
               DispatcherSend ''nsw_rural_fire_service_feed_delete_A'')])"
  using add_entities_calls [OF iter_ok_sorted, of UPDATE_OK "[example_entry ''A'']"
      "tracking [''A'']"]
  by (simp add: eval_simps iter_ok_sorted)

end
